theory Spec2Isabelle
  imports Complex_Main "HOL-Library.Product_Lexorder" "HOL-Library.Log_Nat"
begin

section \<open>Values, errors and identifiers\<close>

text \<open>
  The exceptions the modelled code can raise.  \<open>IndexError\<close> is raised by list indexing,
  by \<open>heapq.heapreplace\<close> on an empty heap and by numpy when a boolean mask does not have
  the length of the indexed array; \<open>KeyError\<close> by a dictionary lookup; \<open>ValueError\<close> by
  numpy when an array cannot be broadcast into the target of an assignment (and by
  \<open>randint\<close> on an empty range); \<open>ZeroDivisionError\<close> by \<open>1 / 0\<close> on Python integers;
  \<open>TypeError\<close> by numpy when a size is a float.
\<close>

datatype error = IndexError | KeyError | ValueError | ZeroDivisionError | TypeError

datatype CrossoverType = UNIFORM

datatype MutationType = FLIP_BIT

text \<open>
  The constructor stores whatever object the caller passes as a strategy selector; the
  annotations are not enforced.  A selector is therefore a member of one of the two
  enumerations or some other object.
\<close>

datatype selector =
    CrossoverSel CrossoverType
  | MutationSel MutationType
  | NoneSel
  | StrSel string

text \<open>
  A child identifier is the integer value of a UUID (UUIDs compare by that value), a
  priority is a finite float, of which only the order is used, and a heap entry is the
  two-element list \<open>[priority, cid]\<close>, which Python compares lexicographically: this is
  the order of pairs in force here.  A reference is the identity of an array object.
\<close>

type_synonym cid = nat
type_synonym priority = rat
type_synonym entry = "priority \<times> cid"
type_synonym ref = nat
type_synonym genome = "int list"

section \<open>The heapq module\<close>

text \<open>
  \<open>_siftdown(heap, startpos, pos)\<close>: the item at \<open>pos\<close> moves towards the root while it
  is smaller than its parent.  The callers below pass \<open>pos < len(heap)\<close>.
\<close>

function siftdown_loop :: "'a::linorder list \<Rightarrow> nat \<Rightarrow> nat \<Rightarrow> 'a \<Rightarrow> 'a list" where
  "siftdown_loop heap startpos pos newitem =
     (if pos > startpos then
        (let parentpos = (pos - 1) div 2;
             parent = heap ! parentpos
         in if newitem < parent
            then siftdown_loop (heap[pos := parent]) startpos parentpos newitem
            else heap[pos := newitem])
      else heap[pos := newitem])"
  by pat_completeness auto
termination
  by (relation "measure (\<lambda>(heap, startpos, pos, newitem). pos)") auto

declare siftdown_loop.simps [simp del]

definition siftdown :: "'a::linorder list \<Rightarrow> nat \<Rightarrow> nat \<Rightarrow> 'a list" where
  "siftdown heap startpos pos = siftdown_loop heap startpos pos (heap ! pos)"

text \<open>
  \<open>_siftup(heap, pos)\<close>: the smaller child is moved up until a leaf is reached, the item
  is put there and sifted down again.  The loop returns the heap and the leaf position.
\<close>

function siftup_loop :: "'a::linorder list \<Rightarrow> nat \<Rightarrow> nat \<Rightarrow> nat \<Rightarrow> 'a list \<times> nat" where
  "siftup_loop heap endpos pos childpos =
     (if childpos < endpos then
        (let rightpos = childpos + 1;
             childpos' = (if rightpos < endpos \<and> \<not> heap ! childpos < heap ! rightpos
                          then rightpos else childpos)
         in siftup_loop (heap[pos := heap ! childpos']) endpos childpos' (2 * childpos' + 1))
      else (heap, pos))"
  by pat_completeness auto
termination
  by (relation "measure (\<lambda>(heap, endpos, pos, childpos). endpos - childpos)") auto

declare siftup_loop.simps [simp del]

definition siftup :: "'a::linorder list \<Rightarrow> nat \<Rightarrow> 'a list" where
  "siftup heap pos =
     (let endpos = length heap;
          startpos = pos;
          newitem = heap ! pos;
          (heap', pos') = siftup_loop heap endpos pos (2 * pos + 1)
      in siftdown (heap'[pos' := newitem]) startpos pos')"

definition heappush :: "'a::linorder list \<Rightarrow> 'a \<Rightarrow> 'a list" where
  "heappush heap item = siftdown (heap @ [item]) 0 (length (heap @ [item]) - 1)"

text \<open>
  \<open>heapreplace(heap, item)\<close> pops the smallest item and pushes the new one, whatever the
  new item is; it returns the popped item.  It raises IndexError on an empty heap.
\<close>

definition heapreplace :: "'a::linorder list \<Rightarrow> 'a \<Rightarrow> error + ('a \<times> 'a list)" where
  "heapreplace heap item =
     (case heap of
        [] \<Rightarrow> Inl IndexError
      | returnitem # _ \<Rightarrow> Inr (returnitem, siftup (heap[0 := item]) 0))"

fun heapify_loop :: "'a::linorder list \<Rightarrow> nat list \<Rightarrow> 'a list" where
  "heapify_loop x [] = x"
| "heapify_loop x (i # rest) = heapify_loop (siftup x i) rest"

definition heapify :: "'a::linorder list \<Rightarrow> 'a list" where
  "heapify x = heapify_loop x (rev [0 ..< length x div 2])"

text \<open>
  \<open>nlargest(n, iterable)\<close> is \<open>sorted(iterable, reverse=True)[:n]\<close>, as its documentation
  says; it is also the branch the function takes when the list has at most \<open>n\<close> items.
  Entries that compare equal are the same value, so the order among them is not
  observable.
\<close>

definition nlargest :: "nat \<Rightarrow> 'a::linorder list \<Rightarrow> 'a list" where
  "nlargest n iterable = take n (rev (sort iterable))"

section \<open>VectorEvolver: the generation ledger\<close>

record evolver =
  vec_size :: nat
  crossover_type :: selector
  mutation_type :: selector
  child_dict :: "cid \<rightharpoonup> ref"
  child_heap :: "entry list"
  generation :: nat
  generation_priorities :: "priority list"
  num_parents :: nat
  parents :: "ref list"

text \<open>
  \<open>add_child(child, priority)\<close> (evolver.py, lines 55 to 84).  The fresh identifier \<open>uuid.uuid1()\<close> is the argument
  \<open>c\<close>; it is also what the method returns.  The child is held by reference.
\<close>

definition add_child :: "evolver \<Rightarrow> cid \<Rightarrow> ref \<Rightarrow> priority \<Rightarrow> error + evolver" where
  "add_child ev c child prio =
     (let ev1 = ev\<lparr>child_dict := (child_dict ev)(c \<mapsto> child)\<rparr>;
          entry = (prio, c)
      in if length (child_heap ev1) \<ge> num_parents ev1 then
           (case heapreplace (child_heap ev1) entry of
              Inl e \<Rightarrow> Inl e
            | Inr (returnitem, heap') \<Rightarrow>
                Inr (ev1\<lparr>child_heap := heap',
                         generation_priorities := generation_priorities ev1 @ [prio]\<rparr>))
         else
           Inr (ev1\<lparr>child_heap := heappush (child_heap ev1) entry,
                    generation_priorities := generation_priorities ev1 @ [prio]\<rparr>))"

text \<open>
  \<open>update_parents()\<close> (lines 97 to 113).  Its loop looks each selected identifier up in
  the dictionary; then the ledger is reset and the generation counted.
\<close>

fun collect_parents :: "(cid \<rightharpoonup> ref) \<Rightarrow> entry list \<Rightarrow> ref list \<Rightarrow> error + ref list" where
  "collect_parents d [] acc = Inr acc"
| "collect_parents d ((prio, pcid) # rest) acc =
     (case d pcid of
        None \<Rightarrow> Inl KeyError
      | Some child \<Rightarrow> collect_parents d rest (acc @ [child]))"

definition update_parents :: "evolver \<Rightarrow> error + evolver" where
  "update_parents ev =
     (let parents_cid = nlargest (num_parents ev) (child_heap ev)
      in case collect_parents (child_dict ev) parents_cid [] of
           Inl e \<Rightarrow> Inl e
         | Inr ps \<Rightarrow>
             Inr (ev\<lparr>parents := ps,
                     child_dict := Map.empty,
                     child_heap := heapify [],
                     generation_priorities := [],
                     generation := generation ev + 1\<rparr>))"

text \<open>
  A call that changes the ledger, and a run of such calls, which stops at the first
  exception.  The other methods are not calls of a run: \<open>spawn_child\<close> and \<open>init_child\<close>
  read the engine and write only to arrays, and \<open>get_generation_stats\<close> writes nothing.
\<close>

datatype call = AddChild cid ref priority | UpdateParents

fun run :: "evolver \<Rightarrow> call list \<Rightarrow> error + evolver" where
  "run ev [] = Inr ev"
| "run ev (AddChild c child prio # rest) =
     (case add_child ev c child prio of Inl e \<Rightarrow> Inl e | Inr ev' \<Rightarrow> run ev' rest)"
| "run ev (UpdateParents # rest) =
     (case update_parents ev of Inl e \<Rightarrow> Inl e | Inr ev' \<Rightarrow> run ev' rest)"

section \<open>The array store and the numpy operations used by the operators\<close>

text \<open>
  Genomes are numpy arrays, which the operators copy and write in place.  The store maps
  the identity of every array to its contents; \<open>next_ref\<close> is the identity the next
  allocation gets, so the references a program holds are below it.
\<close>

record store =
  cells :: "ref \<Rightarrow> genome"
  next_ref :: ref

definition alloc :: "store \<Rightarrow> genome \<Rightarrow> ref \<times> store" where
  "alloc st a =
     (next_ref st, st\<lparr>cells := (cells st)(next_ref st := a), next_ref := next_ref st + 1\<rparr>)"

text \<open>
  The arrays the engine makes hold 64-bit integers, whose arithmetic wraps around, and
  the buffers of the codec hold 64-bit floats.  \<open>int64\<close> is the wrap-around.
  \<open>float64_of_int\<close> is the conversion of an integer to a float, read as the integer the
  float stands for: beyond 53 bits the integer is rounded to the nearest multiple of the
  unit in the last place, ties to the even one.
\<close>

definition int64 :: "int \<Rightarrow> int" where
  "int64 x = (x + 2 ^ 63) mod 2 ^ 64 - 2 ^ 63"

definition float64_of_int :: "int \<Rightarrow> int" where
  "float64_of_int v =
     (if \<bar>v\<bar> \<le> 2 ^ 53 then v
      else
        (let e = nat (bitlen \<bar>v\<bar>) - 53;
             q = \<bar>v\<bar> div 2 ^ e;
             r = \<bar>v\<bar> mod 2 ^ e;
             q' = (if 2 * r > 2 ^ e \<or> (2 * r = 2 ^ e \<and> odd q) then q + 1 else q)
         in sgn v * q' * 2 ^ e))"

text \<open>
  \<open>np.random.randint(low, high, size)\<close>: \<open>sz\<close> integers of the half-open range from
  \<open>low\<close> to \<open>high\<close>, here read off a stream of raw draws; ValueError when the range is
  empty.
\<close>

definition randint :: "int \<Rightarrow> int \<Rightarrow> nat \<Rightarrow> (nat \<Rightarrow> nat) \<Rightarrow> error + genome" where
  "randint low high sz draw =
     (if low \<ge> high then Inl ValueError
      else Inr (map (\<lambda>i. low + int (draw i) mod (high - low)) [0 ..< sz]))"

text \<open>
  \<open>a[mask]\<close> for a boolean mask: the elements where the mask is true, as a new array.
  numpy raises IndexError when the mask has another length than the array, except for
  the empty mask, which it accepts on an array of any length and which selects nothing.
\<close>

definition bool_index :: "'a list \<Rightarrow> bool list \<Rightarrow> error + 'a list" where
  "bool_index a msk =
     (if msk \<noteq> [] \<and> length msk \<noteq> length a then Inl IndexError
      else Inr (map fst (filter snd (zip a msk))))"

fun put_mask :: "'a list \<Rightarrow> bool list \<Rightarrow> 'a list \<Rightarrow> 'a list" where
  "put_mask [] msk vals = []"
| "put_mask (x # xs) [] vals = x # xs"
| "put_mask (x # xs) (m # msk) vals =
     (if m then
        (case vals of
           [] \<Rightarrow> x # put_mask xs msk []
         | v # vals' \<Rightarrow> v # put_mask xs msk vals')
      else x # put_mask xs msk vals)"

text \<open>
  \<open>a[mask] = vals\<close>: the positions where the mask is true take the values in order; a
  single value is broadcast to all of them.  The empty mask is accepted here too, and
  leaves the array as it is.
\<close>

definition bool_assign :: "'a list \<Rightarrow> bool list \<Rightarrow> 'a list \<Rightarrow> error + 'a list" where
  "bool_assign a msk vals =
     (let n = length (filter id msk)
      in if msk \<noteq> [] \<and> length msk \<noteq> length a then Inl IndexError
         else if length vals = n then Inr (put_mask a msk vals)
         else (case vals of
                 [v] \<Rightarrow> Inr (put_mask a msk (replicate n v))
               | _ \<Rightarrow> Inl ValueError))"

section \<open>VectorEvolver: the operators\<close>

text \<open>
  Every operator takes the store and returns its result, or the exception, with the
  store it leaves behind.
\<close>

definition init_child :: "evolver \<Rightarrow> (nat \<Rightarrow> nat) \<Rightarrow> store \<Rightarrow> (error + ref) \<times> store" where
  "init_child ev draw st =
     (case randint 0 1 (vec_size ev) draw of
        Inl e \<Rightarrow> (Inl e, st)
      | Inr a \<Rightarrow> (let (r, st') = alloc st a in (Inr r, st')))"

text \<open>
  \<open>crossover(p1, p2)\<close> (lines 137 to 157).  \<open>cbits i\<close> is the outcome of the \<open>i\<close>-th draw
  \<open>np.random.rand(...) < 0.5\<close>; the mask has \<open>_vec_size\<close> entries.  The right-hand side
  \<open>p2[crossover_bits]\<close> is evaluated before the assignment to \<open>c\<close>.
\<close>

definition crossover ::
  "evolver \<Rightarrow> (nat \<Rightarrow> bool) \<Rightarrow> ref \<Rightarrow> ref \<Rightarrow> store \<Rightarrow> (error + ref) \<times> store" where
  "crossover ev cbits p1 p2 st =
     (let (c, st1) = alloc st (cells st p1)
      in if crossover_type ev = CrossoverSel UNIFORM then
           (let crossover_bits = map cbits [0 ..< vec_size ev]
            in case bool_index (cells st1 p2) crossover_bits of
                 Inl e \<Rightarrow> (Inl e, st1)
               | Inr vals \<Rightarrow>
                   (case bool_assign (cells st1 c) crossover_bits vals of
                      Inl e \<Rightarrow> (Inl e, st1)
                    | Inr a \<Rightarrow> (Inr c, st1\<lparr>cells := (cells st1)(c := a)\<rparr>)))
         else (Inr c, st1))"

text \<open>
  \<open>mutate(p)\<close> (lines 159 to 173).  \<open>mbits i\<close> is the outcome of the \<open>i\<close>-th draw
  \<open>np.random.rand(...) < 1 / _vec_size\<close>.  The size is the Python integer a caller gives to
  the VectorEvolver constructor, so the division raises ZeroDivisionError for size 0.
  (MatrixEvolver passes a numpy integer instead, for which the division gives infinity
  and nothing is raised; the engine is modelled as VectorEvolver has it.)  The array \<open>p\<close>
  is written in place and returned; \<open>1 - p[mutation_bits]\<close> is 64-bit integer arithmetic.
\<close>

definition mutate :: "evolver \<Rightarrow> (nat \<Rightarrow> bool) \<Rightarrow> ref \<Rightarrow> store \<Rightarrow> (error + ref) \<times> store" where
  "mutate ev mbits p st =
     (if mutation_type ev = MutationSel FLIP_BIT then
        (if vec_size ev = 0 then (Inl ZeroDivisionError, st)
         else
           (let mutation_bits = map mbits [0 ..< vec_size ev]
            in case bool_index (cells st p) mutation_bits of
                 Inl e \<Rightarrow> (Inl e, st)
               | Inr vals \<Rightarrow>
                   (case bool_assign (cells st p) mutation_bits (map (\<lambda>v. int64 (1 - v)) vals) of
                      Inl e \<Rightarrow> (Inl e, st)
                    | Inr a \<Rightarrow> (Inr p, st\<lparr>cells := (cells st)(p := a)\<rparr>))))
      else (Inr p, st))"

text \<open>
  \<open>spawn_child()\<close> (lines 87 to 95): \<open>_parents[0]\<close> and \<open>_parents[1]\<close> raise IndexError
  when missing.
\<close>

definition spawn_child ::
  "evolver \<Rightarrow> (nat \<Rightarrow> bool) \<Rightarrow> (nat \<Rightarrow> bool) \<Rightarrow> store \<Rightarrow> (error + ref) \<times> store" where
  "spawn_child ev cbits mbits st =
     (case parents ev of
        p0 # p1 # _ \<Rightarrow>
          (case crossover ev cbits p0 p1 st of
             (Inl e, st1) \<Rightarrow> (Inl e, st1)
           | (Inr c, st1) \<Rightarrow> mutate ev mbits c st1)
      | _ \<Rightarrow> (Inl IndexError, st))"

text \<open>
  The constructor (lines 20 to 51).  The list comprehension calls \<open>init_child\<close> once for every index of
  \<open>range(_num_parents)\<close>; \<open>draws i\<close> is the stream of raw draws of the \<open>i\<close>-th call.
\<close>

fun init_parents ::
  "evolver \<Rightarrow> (nat \<Rightarrow> nat \<Rightarrow> nat) \<Rightarrow> nat list \<Rightarrow> store \<Rightarrow> (error + ref list) \<times> store" where
  "init_parents ev draws [] st = (Inr [], st)"
| "init_parents ev draws (i # rest) st =
     (case init_child ev (draws i) st of
        (Inl e, st1) \<Rightarrow> (Inl e, st1)
      | (Inr r, st1) \<Rightarrow>
          (case init_parents ev draws rest st1 of
             (Inl e, st2) \<Rightarrow> (Inl e, st2)
           | (Inr rs, st2) \<Rightarrow> (Inr (r # rs), st2)))"

definition VectorEvolver_init ::
  "nat \<Rightarrow> selector \<Rightarrow> selector \<Rightarrow> (nat \<Rightarrow> nat \<Rightarrow> nat) \<Rightarrow> store \<Rightarrow> (error + evolver) \<times> store" where
  "VectorEvolver_init sz ct mt draws st =
     (let ev = \<lparr>vec_size = sz, crossover_type = ct, mutation_type = mt,
                child_dict = Map.empty, child_heap = heapify [],
                generation = 0, generation_priorities = [],
                num_parents = 2, parents = []\<rparr>
      in case init_parents ev draws [0 ..< num_parents ev] st of
           (Inl e, st') \<Rightarrow> (Inl e, st')
         | (Inr ps, st') \<Rightarrow> (Inr (ev\<lparr>parents := ps\<rparr>), st'))"

section \<open>MatrixEvolver: the vector and matrix codec\<close>

text \<open>
  A numpy array is its shape and its elements in row-major order.  The elements are
  integers or floats that stand for integers, and are modelled as those integers.  The
  buffers made by \<open>np.zeros\<close> hold floats, so every element assigned into one is converted.
\<close>

record ndarray =
  shape :: "nat list"
  data :: "int list"

definition np_zeros :: "nat \<Rightarrow> ndarray" where
  "np_zeros n = \<lparr>shape = [n], data = replicate n 0\<rparr>"

text \<open>\<open>vec[a:b]\<close> on a one-dimensional vector: the bounds are clipped to its length.\<close>

definition slice :: "int list \<Rightarrow> nat \<Rightarrow> nat \<Rightarrow> ndarray" where
  "slice vec a b =
     (let d = take (b - a) (drop a vec) in \<lparr>shape = [length d], data = d\<rparr>)"

text \<open>
  Assignment into a one-dimensional float target of \<open>n\<close> elements.  numpy drops unit
  dimensions from the left of the source's shape while it has more dimensions than the
  target, and then broadcasts: the source must be left with one dimension of \<open>n\<close>
  elements, or with a single element, which fills the target.  Anything else raises
  ValueError; no flattening takes place.  The elements are converted to floats.
\<close>

fun strip_ones :: "nat list \<Rightarrow> nat list" where
  "strip_ones (d # d' # ds) = (if d = 1 then strip_ones (d' # ds) else d # d' # ds)"
| "strip_ones ds = ds"

definition fill :: "nat \<Rightarrow> int list \<Rightarrow> error + int list" where
  "fill n d =
     (case d of [] \<Rightarrow> Inl ValueError | x # _ \<Rightarrow> Inr (replicate n (float64_of_int x)))"

definition broadcast_into :: "nat \<Rightarrow> ndarray \<Rightarrow> error + int list" where
  "broadcast_into n src =
     (case strip_ones (shape src) of
        [] \<Rightarrow> fill n (data src)
      | [k] \<Rightarrow> if k = n then Inr (map float64_of_int (data src))
               else if k = 1 then fill n (data src)
               else Inl ValueError
      | _ \<Rightarrow> Inl ValueError)"

text \<open>\<open>vec[a:b] = src\<close> on a one-dimensional vector.\<close>

definition slice_assign :: "int list \<Rightarrow> nat \<Rightarrow> nat \<Rightarrow> ndarray \<Rightarrow> error + int list" where
  "slice_assign vec a b src =
     (let lo = min a (length vec);
          hi = max lo (min b (length vec))
      in case broadcast_into (hi - lo) src of
           Inl e \<Rightarrow> Inl e
         | Inr d \<Rightarrow> Inr (take lo vec @ d @ drop hi vec))"

text \<open>\<open>m.reshape(s)\<close>: the same elements under a shape with as many elements.\<close>

definition reshape :: "ndarray \<Rightarrow> nat list \<Rightarrow> error + ndarray" where
  "reshape m s =
     (if prod_list s = length (data m) then Inr \<lparr>shape = s, data = data m\<rparr>
      else Inl ValueError)"

text \<open>
  The fields the MatrixEvolver constructor sets (lines 179 to 196) before it calls the
  VectorEvolver constructor with \<open>_total_params\<close> as the vector size.  \<open>np.product\<close> of an
  empty shape and \<open>np.sum\<close> of an empty list are floats, and the initial parents cannot be
  drawn with a float size.

  \<open>np.product\<close> and \<open>np.sum\<close> compute in 64-bit integers, and an array has fewer than
  \<open>2 ^ 60\<close> elements of eight bytes.  The constructor is modelled for the shapes these
  limits leave as they are: every dimension positive and below \<open>2 ^ 63\<close>, and fewer than
  \<open>2 ^ 60\<close> elements in all.  For other shapes the result is \<open>None\<close>: what the code does with
  them (wrapped or zero element counts, allocation failures) is not modelled, and no
  statement below is about them.
\<close>

record matrix_evolver =
  matrix_sizes :: "nat list list"
  matrix_params :: "nat list"
  total_params :: nat

definition representable :: "nat list list \<Rightarrow> bool" where
  "representable sizes \<longleftrightarrow>
     list_all (list_all (\<lambda>d. 0 < d \<and> d < 2 ^ 63)) sizes \<and>
     sum_list (map prod_list sizes) < 2 ^ 60"

definition MatrixEvolver_init :: "nat list list \<Rightarrow> (error + matrix_evolver) option" where
  "MatrixEvolver_init sizes =
     (if \<not> representable sizes then None
      else if sizes = [] \<or> [] \<in> set sizes then Some (Inl TypeError)
      else Some (Inr \<lparr>matrix_sizes = sizes,
                      matrix_params = map prod_list sizes,
                      total_params = sum_list (map prod_list sizes)\<rparr>))"

text \<open>
  The loop of \<open>vec_to_matrices\<close> (lines 198 to 218) over \<open>enumerate(_matrix_params)\<close>, with the index \<open>i\<close>,
  the offset \<open>idx\<close> and the matrices made so far.
\<close>

fun vec_to_matrices_loop ::
  "nat list list \<Rightarrow> int list \<Rightarrow> nat list \<Rightarrow> nat \<Rightarrow> nat \<Rightarrow> ndarray list \<Rightarrow> error + ndarray list" where
  "vec_to_matrices_loop sizes vec [] i idx matrices = Inr matrices"
| "vec_to_matrices_loop sizes vec (s # rest) i idx matrices =
     (let m = np_zeros s
      in case broadcast_into (length (data m)) (slice vec idx (idx + s)) of
           Inl e \<Rightarrow> Inl e
         | Inr d \<Rightarrow>
             (if i < length sizes then
                (case reshape (m\<lparr>data := d\<rparr>) (sizes ! i) of
                   Inl e \<Rightarrow> Inl e
                 | Inr m' \<Rightarrow>
                     vec_to_matrices_loop sizes vec rest (i + 1) (idx + s) (matrices @ [m']))
              else Inl IndexError))"

definition vec_to_matrices :: "matrix_evolver \<Rightarrow> int list \<Rightarrow> error + ndarray list" where
  "vec_to_matrices mev vec =
     vec_to_matrices_loop (matrix_sizes mev) vec (matrix_params mev) 0 0 []"

text \<open>
  The loop of \<open>matrices_to_vec\<close> (lines 220 to 237).  \<open>matrices[i]\<close> raises IndexError past the end of the
  list; \<open>matrices[i][:]\<close> is the matrix under its own shape, and raises IndexError on an
  array without dimensions.
\<close>

fun matrices_to_vec_loop ::
  "ndarray list \<Rightarrow> nat list \<Rightarrow> nat \<Rightarrow> nat \<Rightarrow> int list \<Rightarrow> error + int list" where
  "matrices_to_vec_loop matrices [] i idx vec = Inr vec"
| "matrices_to_vec_loop matrices (s # rest) i idx vec =
     (if i < length matrices then
        (if shape (matrices ! i) = [] then Inl IndexError
         else
           (case slice_assign vec idx (idx + s) (matrices ! i) of
              Inl e \<Rightarrow> Inl e
            | Inr vec' \<Rightarrow> matrices_to_vec_loop matrices rest (i + 1) (idx + s) vec'))
      else Inl IndexError)"

definition matrices_to_vec :: "matrix_evolver \<Rightarrow> ndarray list \<Rightarrow> error + int list" where
  "matrices_to_vec mev matrices =
     matrices_to_vec_loop matrices (matrix_params mev) 0 0
       (data (np_zeros (total_params mev)))"

section \<open>Example inputs\<close>

definition empty_store :: store where
  "empty_store = \<lparr>cells = (\<lambda>r. []), next_ref = 0\<rparr>"

definition zero_draws :: "nat \<Rightarrow> nat \<Rightarrow> nat" where
  "zero_draws i j = 0"

definition even_bits :: "nat \<Rightarrow> bool" where
  "even_bits i = (i mod 2 = 0)"

section \<open>Invariant of the ledger and bookkeeping for the proofs\<close>

text \<open>
  What holds of the ledger between any two calls: two parents are asked for, the heap has
  no more entries than that, and every identifier on the heap is a key of the dictionary.
\<close>

definition ledger_ok :: "evolver \<Rightarrow> bool" where
  "ledger_ok ev \<longleftrightarrow>
     num_parents ev = 2 \<and> length (child_heap ev) \<le> num_parents ev \<and>
     snd ` set (child_heap ev) \<subseteq> dom (child_dict ev)"

text \<open>
  \<open>count_adds n calls\<close>: the number of \<open>add_child\<close> calls since the last
  \<open>update_parents\<close> at the end of \<open>calls\<close>, when there were \<open>n\<close> before \<open>calls\<close>.
\<close>

fun count_adds :: "nat \<Rightarrow> call list \<Rightarrow> nat" where
  "count_adds n [] = n"
| "count_adds n (AddChild c child prio # rest) = count_adds (n + 1) rest"
| "count_adds n (UpdateParents # rest) = count_adds 0 rest"


text \<open>The engine as constructed for vectors of size 4 on the empty store.\<close>

definition example_evolver :: evolver where
  "example_evolver =
     \<lparr>vec_size = 4, crossover_type = CrossoverSel UNIFORM, mutation_type = MutationSel FLIP_BIT,
      child_dict = Map.empty, child_heap = [],
      generation = 0, generation_priorities = [],
      num_parents = 2, parents = [0, 1]\<rparr>"


text \<open>
  The store the constructor leaves behind in the example, and a store that also holds an
  array of two elements.
\<close>

definition example_store :: store where
  "example_store =
     \<lparr>cells = (\<lambda>r. [])(0 := [0, 0, 0, 0], 1 := [0, 0, 0, 0]), next_ref = 2\<rparr>"

definition mixed_store :: store where
  "mixed_store =
     \<lparr>cells = (\<lambda>r. [])(0 := [0, 0, 0, 0], 1 := [0, 0, 0, 0], 2 := [1, 1]), next_ref = 3\<rparr>"









text \<open>The codec for the shapes (4,) and (3,), and for the shapes (2, 2) and (3,).\<close>

definition flat_codec :: matrix_evolver where
  "flat_codec = \<lparr>matrix_sizes = [[4], [3]], matrix_params = [4, 3], total_params = 7\<rparr>"

definition example_codec :: matrix_evolver where
  "example_codec = \<lparr>matrix_sizes = [[2, 2], [3]], matrix_params = [4, 3], total_params = 7\<rparr>"


section \<open>The heap operations keep the length and add no entry of their own\<close>

lemma length_siftdown_loop [simp]:
  "length (siftdown_loop heap startpos pos newitem) = length heap"
  by (induction heap startpos pos newitem rule: siftdown_loop.induct)
     (subst siftdown_loop.simps, simp add: Let_def)

lemma length_siftdown [simp]: "length (siftdown heap startpos pos) = length heap"
  by (simp add: siftdown_def)

lemma length_siftup_loop [simp]:
  "length (fst (siftup_loop heap endpos pos childpos)) = length heap"
  by (induction heap endpos pos childpos rule: siftup_loop.induct)
     (subst siftup_loop.simps, simp add: Let_def)

lemma length_siftup [simp]: "length (siftup heap pos) = length heap"
  by (simp add: siftup_def Let_def split: prod.splits)
     (metis fst_conv length_siftup_loop)

lemma length_heappush [simp]: "length (heappush heap item) = Suc (length heap)"
  by (simp add: heappush_def)

lemma length_heapreplace:
  "heapreplace heap item = Inr (r, heap') \<Longrightarrow> length heap' = length heap"
  by (auto simp: heapreplace_def split: list.splits)

lemma set_siftdown_loop:
  "pos < length heap \<Longrightarrow>
   set (siftdown_loop heap startpos pos newitem) \<subseteq> insert newitem (set heap)"
proof (induction heap startpos pos newitem rule: siftdown_loop.induct)
  case (1 heap startpos pos newitem)
  let ?pp = "(pos - 1) div 2"
  show ?case
  proof (cases "pos > startpos \<and> newitem < heap ! ?pp")
    case True
    then have eq: "siftdown_loop heap startpos pos newitem =
        siftdown_loop (heap[pos := heap ! ?pp]) startpos ?pp newitem"
      by (subst siftdown_loop.simps) (simp add: Let_def)
    from True "1.prems" have pp: "?pp < length heap" by simp
    then have mem: "heap ! ?pp \<in> set heap" by simp
    have "set (heap[pos := heap ! ?pp]) \<subseteq> insert (heap ! ?pp) (set heap)"
      by (rule set_update_subset_insert)
    with mem have sub: "set (heap[pos := heap ! ?pp]) \<subseteq> set heap" by auto
    from True pp have "set (siftdown_loop (heap[pos := heap ! ?pp]) startpos ?pp newitem)
        \<subseteq> insert newitem (set (heap[pos := heap ! ?pp]))"
      by (intro "1.IH") simp_all
    with sub eq show ?thesis by auto
  next
    case False
    then have "siftdown_loop heap startpos pos newitem = heap[pos := newitem]"
      by (subst siftdown_loop.simps) (auto simp add: Let_def)
    then show ?thesis by (simp add: set_update_subset_insert)
  qed
qed

lemma set_heappush: "set (heappush heap item) \<subseteq> insert item (set heap)"
proof -
  have "set (siftdown_loop (heap @ [item]) 0 (length heap) item)
          \<subseteq> insert item (set (heap @ [item]))"
    by (rule set_siftdown_loop) simp
  then show ?thesis by (simp add: heappush_def siftdown_def)
qed

lemma siftup_loop_props:
  "endpos \<le> length heap \<Longrightarrow> pos < length heap \<Longrightarrow>
   set (fst (siftup_loop heap endpos pos childpos)) \<subseteq> set heap \<and>
   snd (siftup_loop heap endpos pos childpos) < length heap"
proof (induction heap endpos pos childpos rule: siftup_loop.induct)
  case (1 heap endpos pos childpos)
  define c' where "c' = (if childpos + 1 < endpos \<and> \<not> heap ! childpos < heap ! (childpos + 1)
                          then childpos + 1 else childpos)"
  show ?case
  proof (cases "childpos < endpos")
    case True
    then have eq: "siftup_loop heap endpos pos childpos =
        siftup_loop (heap[pos := heap ! c']) endpos c' (2 * c' + 1)"
      by (subst siftup_loop.simps) (simp add: Let_def c'_def)
    from True "1.prems" have c: "c' < length heap" by (auto simp: c'_def)
    then have mem: "heap ! c' \<in> set heap" by simp
    have "set (heap[pos := heap ! c']) \<subseteq> insert (heap ! c') (set heap)"
      by (rule set_update_subset_insert)
    with mem have sub: "set (heap[pos := heap ! c']) \<subseteq> set heap" by auto
    have "set (fst (siftup_loop (heap[pos := heap ! c']) endpos c' (2 * c' + 1)))
            \<subseteq> set (heap[pos := heap ! c']) \<and>
          snd (siftup_loop (heap[pos := heap ! c']) endpos c' (2 * c' + 1))
            < length (heap[pos := heap ! c'])"
      using True "1.prems" c by (intro "1.IH"[OF True refl c'_def[symmetric, THEN sym]]) simp_all
    with sub eq show ?thesis by auto
  next
    case False
    then have "siftup_loop heap endpos pos childpos = (heap, pos)"
      by (subst siftup_loop.simps) simp
    with "1.prems" show ?thesis by simp
  qed
qed

lemma set_siftup: "pos < length heap \<Longrightarrow> set (siftup heap pos) \<subseteq> set heap"
proof -
  assume p: "pos < length heap"
  obtain h' p' where l: "siftup_loop heap (length heap) pos (2 * pos + 1) = (h', p')"
    by (cases "siftup_loop heap (length heap) pos (2 * pos + 1)")
  from siftup_loop_props[of "length heap" heap pos "2 * pos + 1"] p l
  have sub: "set h' \<subseteq> set heap" and lt: "p' < length heap" by auto
  from l have len: "length h' = length heap"
    by (metis fst_conv length_siftup_loop)
  have mem: "heap ! pos \<in> set heap" using p by simp
  have "set (siftdown_loop (h'[p' := heap ! pos]) pos p' (heap ! pos))
          \<subseteq> insert (heap ! pos) (set (h'[p' := heap ! pos]))"
    by (rule set_siftdown_loop) (simp add: len lt)
  moreover have "set (h'[p' := heap ! pos]) \<subseteq> insert (heap ! pos) (set h')"
    by (rule set_update_subset_insert)
  ultimately have "set (siftdown_loop (h'[p' := heap ! pos]) pos p' (heap ! pos)) \<subseteq> set heap"
    using sub mem by auto
  then show ?thesis
    using l lt len by (simp add: siftup_def siftdown_def Let_def)
qed

lemma set_heapreplace:
  "heapreplace heap item = Inr (r, heap') \<Longrightarrow> set heap' \<subseteq> insert item (set heap)"
proof -
  assume a: "heapreplace heap item = Inr (r, heap')"
  then obtain x xs where h: "heap = x # xs"
    by (cases heap) (auto simp: heapreplace_def)
  with a have h': "heap' = siftup (item # xs) 0" by (simp add: heapreplace_def)
  have "set (siftup (item # xs) 0) \<subseteq> set (item # xs)"
    by (rule set_siftup) simp
  with h h' show ?thesis by auto
qed

lemma heapreplace_ok:
  "heap \<noteq> [] \<Longrightarrow> \<exists>r heap'. heapreplace heap item = Inr (r, heap')"
  by (cases heap) (simp_all add: heapreplace_def)


lemma add_child_step:
  assumes "length (child_heap ev) \<le> num_parents ev" and "0 < num_parents ev"
  shows "\<exists>ev'. add_child ev c child prio = Inr ev' \<and>
           num_parents ev' = num_parents ev \<and>
           parents ev' = parents ev \<and>
           child_dict ev' = (child_dict ev)(c \<mapsto> child) \<and>
           set (child_heap ev') \<subseteq> insert (prio, c) (set (child_heap ev)) \<and>
           length (child_heap ev') = min (Suc (length (child_heap ev))) (num_parents ev)"
proof (cases "length (child_heap ev) \<ge> num_parents ev")
  case True
  with assms have ne: "child_heap ev \<noteq> []" by auto
  then obtain r heap' where hr: "heapreplace (child_heap ev) (prio, c) = Inr (r, heap')"
    using heapreplace_ok by blast
  from hr have "length heap' = length (child_heap ev)" by (rule length_heapreplace)
  moreover from hr have "set heap' \<subseteq> insert (prio, c) (set (child_heap ev))"
    by (rule set_heapreplace)
  ultimately show ?thesis using True assms hr
    by (simp add: add_child_def Let_def)
next
  case False
  then show ?thesis
    by (simp add: add_child_def Let_def set_heappush)
qed

lemma add_child_ledger_ok:
  assumes "ledger_ok ev"
  shows "\<exists>ev'. add_child ev c child prio = Inr ev' \<and> ledger_ok ev' \<and>
           parents ev' = parents ev \<and>
           length (child_heap ev') = min (Suc (length (child_heap ev))) 2"
proof -
  from assms have a: "length (child_heap ev) \<le> num_parents ev" "0 < num_parents ev"
    and n: "num_parents ev = 2"
    and d: "snd ` set (child_heap ev) \<subseteq> dom (child_dict ev)"
    by (simp_all add: ledger_ok_def)
  from add_child_step[OF a, of c child prio] obtain ev' where
    ev': "add_child ev c child prio = Inr ev'" "num_parents ev' = num_parents ev"
      "parents ev' = parents ev" "child_dict ev' = (child_dict ev)(c \<mapsto> child)"
      "set (child_heap ev') \<subseteq> insert (prio, c) (set (child_heap ev))"
      "length (child_heap ev') = min (Suc (length (child_heap ev))) (num_parents ev)"
    by blast
  have "snd ` set (child_heap ev') \<subseteq> insert c (snd ` set (child_heap ev))"
    using image_mono[OF ev'(5), of snd] by simp
  moreover have "insert c (snd ` set (child_heap ev)) \<subseteq> insert c (dom (child_dict ev))"
    using d by (rule insert_mono)
  ultimately have "snd ` set (child_heap ev') \<subseteq> insert c (dom (child_dict ev))"
    by (rule subset_trans)
  with ev' n have "ledger_ok ev'" by (simp add: ledger_ok_def)
  with ev' n show ?thesis by simp
qed

lemma collect_parents_ok:
  "snd ` set es \<subseteq> dom d \<Longrightarrow>
   \<exists>ps. collect_parents d es acc = Inr ps \<and> length ps = length acc + length es"
proof (induction es arbitrary: acc)
  case Nil
  then show ?case by simp
next
  case (Cons e es)
  obtain prio pcid where e: "e = (prio, pcid)" by (cases e)
  with Cons.prems obtain child where c: "d pcid = Some child" by auto
  from Cons.prems have "snd ` set es \<subseteq> dom d" by auto
  from Cons.IH[OF this, of "acc @ [child]"] e c show ?case by simp
qed

lemma length_nlargest: "length (nlargest n xs) = min n (length xs)"
  by (simp add: nlargest_def min.commute)

lemma set_nlargest: "set (nlargest n xs) \<subseteq> set xs"
  using set_take_subset[of n "rev (sort xs)"] by (simp add: nlargest_def)

lemma heapify_Nil [simp]: "heapify [] = []"
  by (simp add: heapify_def)

lemma update_parents_ledger_ok:
  assumes "ledger_ok ev"
  shows "\<exists>ev'. update_parents ev = Inr ev' \<and> ledger_ok ev' \<and> child_heap ev' = [] \<and>
           length (parents ev') = min (length (child_heap ev)) 2"
proof -
  from assms have n: "num_parents ev = 2"
    and d: "snd ` set (child_heap ev) \<subseteq> dom (child_dict ev)"
    by (simp_all add: ledger_ok_def)
  from d set_nlargest[of 2 "child_heap ev"]
  have "snd ` set (nlargest 2 (child_heap ev)) \<subseteq> dom (child_dict ev)" by blast
  from collect_parents_ok[OF this, of "[]"] obtain ps where
    ps: "collect_parents (child_dict ev) (nlargest 2 (child_heap ev)) [] = Inr ps"
      "length ps = length (nlargest 2 (child_heap ev))" by auto
  then show ?thesis using n
    by (simp add: update_parents_def Let_def ledger_ok_def length_nlargest min.commute)
qed

lemma run_ledger_ok:
  "ledger_ok ev \<Longrightarrow> length (child_heap ev) = min n 2 \<Longrightarrow>
   \<exists>ev'. run ev calls = Inr ev' \<and> ledger_ok ev' \<and>
         length (child_heap ev') = min (count_adds n calls) 2"
proof (induction calls arbitrary: ev n)
  case Nil
  then show ?case by simp
next
  case (Cons a calls)
  show ?case
  proof (cases a)
    case (AddChild c child prio)
    from add_child_ledger_ok[OF Cons.prems(1), of c child prio] obtain ev1 where
      ev1: "add_child ev c child prio = Inr ev1" "ledger_ok ev1"
        "length (child_heap ev1) = min (Suc (length (child_heap ev))) 2" by blast
    with Cons.prems(2) have "length (child_heap ev1) = min (n + 1) 2" by auto
    from Cons.IH[OF ev1(2) this] ev1(1) AddChild show ?thesis by simp
  next
    case UpdateParents
    from update_parents_ledger_ok[OF Cons.prems(1)] obtain ev1 where
      ev1: "update_parents ev = Inr ev1" "ledger_ok ev1" "child_heap ev1 = []" by blast
    then have "length (child_heap ev1) = min 0 2" by simp
    from Cons.IH[OF ev1(2) this] ev1(1) UpdateParents show ?thesis by simp
  qed
qed

lemma init_child_eq:
  "init_child ev draw st =
     (Inr (next_ref st),
      st\<lparr>cells := (cells st)(next_ref st := replicate (vec_size ev) 0),
         next_ref := next_ref st + 1\<rparr>)"
proof -
  have "map (\<lambda>i. 0 + int (draw i) mod (1 - 0)) [0 ..< vec_size ev] = replicate (vec_size ev) 0"
    by (simp add: map_replicate_const)
  then show ?thesis
    by (simp add: init_child_def randint_def alloc_def)
qed

lemma VectorEvolver_init_eq:
  "VectorEvolver_init sz ct mt draws st =
     (Inr \<lparr>vec_size = sz, crossover_type = ct, mutation_type = mt,
           child_dict = Map.empty, child_heap = [],
           generation = 0, generation_priorities = [],
           num_parents = 2, parents = [next_ref st, next_ref st + 1]\<rparr>,
      st\<lparr>cells := (cells st)(next_ref st := replicate sz 0, next_ref st + 1 := replicate sz 0),
         next_ref := next_ref st + 2\<rparr>)"
proof -
  have "[0 ..< (2::nat)] = [0, 1]" by (simp add: upt_rec)
  then show ?thesis
    by (simp add: VectorEvolver_init_def Let_def init_child_eq)
qed

lemma VectorEvolver_init_ledger_ok:
  "fst (VectorEvolver_init sz ct mt draws st) = Inr ev0 \<Longrightarrow>
   ledger_ok ev0 \<and> child_heap ev0 = [] \<and> length (parents ev0) = 2"
  by (auto simp: VectorEvolver_init_eq ledger_ok_def)

section \<open>The ledger over the lifetime of the engine\<close>

lemma heappush_Nil [simp]: "heappush [] e = [e]"
  by (simp add: heappush_def siftdown_def siftdown_loop.simps)

lemma heappush_single [simp]: "heappush [a] e = (if e < a then [e, a] else [a, e])"
  by (simp add: heappush_def siftdown_def siftdown_loop.simps Let_def)

lemma heapreplace_pair [simp]:
  "heapreplace [a, b] e = Inr (a, if e < b then [e, b] else [b, e])"
  by (simp add: heapreplace_def siftup_def siftup_loop.simps siftdown_def
      siftdown_loop.simps Let_def)

text \<open>
  At a full heap of two entries the minimum \<open>a\<close> leaves and the new entry stays, whatever
  its priority is.
\<close>

lemma add_child_full_heap:
  assumes "child_heap ev = [a, b]" and "num_parents ev = 2"
  shows "\<exists>ev'. add_child ev c child prio = Inr ev' \<and>
           child_heap ev' = (if (prio, c) < b then [(prio, c), b] else [b, (prio, c)])"
  using assms by (simp add: add_child_def Let_def)

lemma run_append:
  "run ev (xs @ ys) = (case run ev xs of Inl e \<Rightarrow> Inl e | Inr ev' \<Rightarrow> run ev' ys)"
proof (induction xs arbitrary: ev)
  case Nil
  then show ?case by simp
next
  case (Cons a xs)
  then show ?case by (cases a) (simp_all split: sum.splits)
qed

lemma example_evolver_init:
  "fst (VectorEvolver_init 4 (CrossoverSel UNIFORM) (MutationSel FLIP_BIT) zero_draws empty_store)
     = Inr example_evolver"
  by (simp add: VectorEvolver_init_eq example_evolver_def empty_store_def)

text \<open>
  Claim C8.  After construction and after every sequence of \<open>add_child\<close> and
  \<open>update_parents\<close> calls, none of which raises, the child heap holds at most
  \<open>num_parents\<close> entries.
\<close>

theorem child_heap_bounded:
  assumes "fst (VectorEvolver_init sz ct mt draws st) = Inr ev0"
  shows "\<exists>ev. run ev0 calls = Inr ev \<and> length (child_heap ev) \<le> num_parents ev"
proof -
  from VectorEvolver_init_ledger_ok[OF assms]
  have ok: "ledger_ok ev0" and e: "length (child_heap ev0) = min 0 2" by simp_all
  from run_ledger_ok[OF ok e, of calls] show ?thesis
    by (auto simp: ledger_ok_def)
qed

theorem child_heap_bounded_witness:
  "fst (VectorEvolver_init 4 (CrossoverSel UNIFORM) (MutationSel FLIP_BIT) zero_draws empty_store)
     = Inr example_evolver \<and>
   (\<exists>ev. run example_evolver
           [AddChild 11 2 (1/10), AddChild 12 3 (9/10), AddChild 13 4 (1/2)] = Inr ev \<and>
         length (child_heap ev) \<le> num_parents ev)"
  using example_evolver_init
    child_heap_bounded[OF example_evolver_init,
      where calls = "[AddChild 11 2 (1/10), AddChild 12 3 (9/10), AddChild 13 4 (1/2)]"]
  by blast

text \<open>
  Claim C5, as amended.  After construction the parent set holds exactly two genomes.
  After an \<open>update_parents\<close> call it holds as many genomes as \<open>add_child\<close> was called since
  the previous \<open>update_parents\<close> (or since construction), but at most two: exactly two
  only when at least two children were added in the generation.
\<close>

theorem parents_count:
  assumes "fst (VectorEvolver_init sz ct mt draws st) = Inr ev0"
  shows "length (parents ev0) = 2 \<and>
         (\<exists>ev. run ev0 (calls @ [UpdateParents]) = Inr ev \<and>
               length (parents ev) = min (count_adds 0 calls) 2)"
proof -
  from VectorEvolver_init_ledger_ok[OF assms]
  have ok: "ledger_ok ev0" and e: "length (child_heap ev0) = min 0 2"
    and p: "length (parents ev0) = 2" by simp_all
  from run_ledger_ok[OF ok e, of calls] obtain ev1 where
    ev1: "run ev0 calls = Inr ev1" "ledger_ok ev1"
      "length (child_heap ev1) = min (count_adds 0 calls) 2" by blast
  from update_parents_ledger_ok[OF ev1(2)] obtain ev2 where
    ev2: "update_parents ev1 = Inr ev2" "length (parents ev2) = min (length (child_heap ev1)) 2"
    by blast
  from ev1 ev2 have "run ev0 (calls @ [UpdateParents]) = Inr ev2 \<and>
      length (parents ev2) = min (count_adds 0 calls) 2"
    by (simp add: run_append)
  with p show ?thesis by blast
qed

theorem parents_count_witness:
  "fst (VectorEvolver_init 4 (CrossoverSel UNIFORM) (MutationSel FLIP_BIT) zero_draws empty_store)
     = Inr example_evolver \<and>
   length (parents example_evolver) = 2 \<and>
   (\<exists>ev. run example_evolver
           ([AddChild 11 2 (1/10), AddChild 12 3 (9/10), AddChild 13 4 (1/2)] @ [UpdateParents])
           = Inr ev \<and>
         length (parents ev) = 2)"
proof -
  have c: "min (count_adds 0 [AddChild 11 2 (1/10), AddChild 12 3 (9/10), AddChild 13 4 (1/2)]) 2
             = 2"
    by simp
  from parents_count[OF example_evolver_init,
      where calls = "[AddChild 11 2 (1/10), AddChild 12 3 (9/10), AddChild 13 4 (1/2)]"]
  have "length (parents example_evolver) = 2 \<and>
   (\<exists>ev. run example_evolver
           ([AddChild 11 2 (1/10), AddChild 12 3 (9/10), AddChild 13 4 (1/2)] @ [UpdateParents])
           = Inr ev \<and>
         length (parents ev) = 2)"
    by (simp only: c)
  with example_evolver_init show ?thesis by blast
qed

text \<open>
  Claim C5 as stated fails: \<open>update_parents\<close> in a generation without children leaves
  the parent set empty.
\<close>

theorem parents_count_counterexample:
  "fst (VectorEvolver_init 4 (CrossoverSel UNIFORM) (MutationSel FLIP_BIT) zero_draws empty_store)
     = Inr example_evolver \<and>
   map_sum id parents (run example_evolver [UpdateParents]) = Inr []"
  by (simp add: example_evolver_init)
     (simp add: example_evolver_def update_parents_def nlargest_def)

text \<open>
  Claim C1.  The code at the scenario of the claim: children with the priorities 0.1,
  0.9, 0.5 and 0.3 are added, held under the references 2, 3, 4 and 5.  The survivors are
  the children of priority 0.9 and 0.3, not 0.9 and 0.5: \<open>heapreplace\<close> evicted 0.5 when
  0.3 arrived.
\<close>

theorem selection_scenario:
  "map_sum id parents
     (run example_evolver
        [AddChild 11 2 (1/10), AddChild 12 3 (9/10), AddChild 13 4 (1/2), AddChild 14 5 (3/10),
         UpdateParents]) = Inr [3, 5]"
  by (simp add: example_evolver_def add_child_def update_parents_def nlargest_def Let_def)

text \<open>
  Claim C2.  The code at a full heap whose minimum has priority 0.5: adding a child of
  the smaller priority 0.3 replaces the minimum all the same.
\<close>

theorem replace_scenario:
  "map_sum id child_heap
     (run example_evolver
        [AddChild 11 2 (1/10), AddChild 12 3 (9/10), AddChild 13 4 (1/2)])
     = Inr [(1/2, 13), (9/10, 12)] \<and>
   map_sum id child_heap
     (run example_evolver
        [AddChild 11 2 (1/10), AddChild 12 3 (9/10), AddChild 13 4 (1/2), AddChild 14 5 (3/10)])
     = Inr [(3/10, 14), (9/10, 12)]"
  by (simp add: example_evolver_def add_child_def Let_def)

section \<open>The operators\<close>

lemma upt_4: "[0 ..< (4::nat)] = [0, 1, 2, 3]"
  by (simp add: upt_rec)

text \<open>
  Claim C9.  For every size, \<open>init_child\<close> returns a new array of exactly that length
  in which every element is 0, whatever is drawn.
\<close>

theorem init_child_zeros:
  "\<exists>r st'. init_child ev draw st = (Inr r, st') \<and>
     length (cells st' r) = vec_size ev \<and> cells st' r = replicate (vec_size ev) 0"
  by (simp add: init_child_eq)

lemma crossover_frame:
  "crossover ev cbits p1 p2 st = (res, st') \<Longrightarrow>
   next_ref st' = next_ref st + 1 \<and> (\<forall>p. p \<noteq> next_ref st \<longrightarrow> cells st' p = cells st p) \<and>
   (\<forall>c. res = Inr c \<longrightarrow> c = next_ref st)"
  by (auto simp: crossover_def alloc_def Let_def split: if_splits sum.splits)

lemma mutate_frame:
  "mutate ev mbits c st = (res, st') \<Longrightarrow>
   next_ref st' = next_ref st \<and> (\<forall>p. p \<noteq> c \<longrightarrow> cells st' p = cells st p) \<and>
   (\<forall>r. res = Inr r \<longrightarrow> r = c)"
  by (auto simp: mutate_def Let_def split: if_splits sum.splits)

text \<open>
  Claim C10.  Whatever \<open>spawn_child\<close> returns or raises, every parent array holds after
  the call what it held before, and the child returned is not a parent array.
\<close>

theorem spawn_child_frame:
  assumes "spawn_child ev cbits mbits st = (res, st')"
    and "p \<in> set (parents ev)" and "p < next_ref st"
  shows "cells st' p = cells st p \<and> res \<noteq> Inr p"
proof (cases "\<exists>p0 p1 ps. parents ev = p0 # p1 # ps")
  case True
  then obtain p0 p1 ps where ps: "parents ev = p0 # p1 # ps" by blast
  obtain r1 st1 where c: "crossover ev cbits p0 p1 st = (r1, st1)"
    by (cases "crossover ev cbits p0 p1 st")
  from crossover_frame[OF c] assms(3)
  have f1: "cells st1 p = cells st p" and r1: "\<And>c. r1 = Inr c \<Longrightarrow> c = next_ref st"
    by auto
  show ?thesis
  proof (cases r1)
    case (Inl e)
    with assms(1) ps c f1 show ?thesis by (auto simp: spawn_child_def)
  next
    case (Inr c1)
    with r1 have c1: "c1 = next_ref st" by simp
    from Inr assms(1) ps c have m: "mutate ev mbits c1 st1 = (res, st')"
      by (simp add: spawn_child_def)
    from mutate_frame[OF m] c1 assms(3) f1 show ?thesis by auto
  qed
next
  case False
  then have "spawn_child ev cbits mbits st = (Inl IndexError, st)"
    by (auto simp: spawn_child_def split: list.splits)
  with assms(1) show ?thesis by auto
qed

lemma spawn_example:
  "spawn_child example_evolver even_bits even_bits example_store =
     (Inr 2, \<lparr>cells = (cells example_store)(2 := [1, 0, 1, 0]), next_ref = 3\<rparr>)"
  by (simp add: spawn_child_def crossover_def mutate_def alloc_def bool_index_def bool_assign_def
      example_evolver_def example_store_def even_bits_def upt_4 int64_def Let_def)


theorem spawn_child_frame_witness:
  "spawn_child example_evolver even_bits even_bits example_store =
     (Inr 2, \<lparr>cells = (cells example_store)(2 := [1, 0, 1, 0]), next_ref = 3\<rparr>) \<and>
   1 \<in> set (parents example_evolver) \<and> 1 < next_ref example_store \<and>
   cells \<lparr>cells = (cells example_store)(2 := [1, 0, 1, 0]), next_ref = 3\<rparr> 1
     = cells example_store 1 \<and>
   (Inr 2 :: error + ref) \<noteq> Inr 1"
proof -
  have a: "1 \<in> set (parents example_evolver)" by (simp add: example_evolver_def)
  have b: "1 < next_ref example_store" by (simp add: example_store_def)
  from spawn_child_frame[OF spawn_example a b] spawn_example a b show ?thesis by blast
qed

text \<open>
  Claim C6, as amended.  The constructor accepts any selector and stores it.  With a
  crossover selector other than UNIFORM, \<open>crossover\<close> returns a new copy of the first
  parent; with a mutation selector other than FLIP_BIT, \<open>mutate\<close> returns its argument
  as it is.  Nothing is raised.
\<close>

theorem unsupported_selector_silent:
  "(\<exists>ev0. fst (VectorEvolver_init sz ct mt draws st0) = Inr ev0 \<and>
          crossover_type ev0 = ct \<and> mutation_type ev0 = mt) \<and>
   (crossover_type ev \<noteq> CrossoverSel UNIFORM \<longrightarrow>
      crossover ev cbits p1 p2 st =
        (Inr (next_ref st),
         st\<lparr>cells := (cells st)(next_ref st := cells st p1), next_ref := next_ref st + 1\<rparr>)) \<and>
   (mutation_type ev \<noteq> MutationSel FLIP_BIT \<longrightarrow> mutate ev mbits p st = (Inr p, st))"
  by (simp add: VectorEvolver_init_eq crossover_def mutate_def alloc_def)

theorem unsupported_selector_silent_witness:
  "(\<exists>ev0. fst (VectorEvolver_init 4 NoneSel (StrSel ''SWAP'') zero_draws empty_store) = Inr ev0 \<and>
          crossover_type ev0 = NoneSel \<and> mutation_type ev0 = StrSel ''SWAP'') \<and>
   crossover_type (example_evolver\<lparr>crossover_type := NoneSel\<rparr>) \<noteq> CrossoverSel UNIFORM \<and>
   crossover (example_evolver\<lparr>crossover_type := NoneSel\<rparr>) even_bits 0 1 example_store =
     (Inr (next_ref example_store),
      example_store\<lparr>cells := (cells example_store)(next_ref example_store := cells example_store 0),
        next_ref := next_ref example_store + 1\<rparr>) \<and>
   mutation_type (example_evolver\<lparr>mutation_type := StrSel ''SWAP''\<rparr>) \<noteq> MutationSel FLIP_BIT \<and>
   mutate (example_evolver\<lparr>mutation_type := StrSel ''SWAP''\<rparr>) even_bits 0 example_store =
     (Inr 0, example_store)"
proof -
  have a: "crossover_type (example_evolver\<lparr>crossover_type := NoneSel\<rparr>) \<noteq> CrossoverSel UNIFORM"
    by simp
  have b: "mutation_type (example_evolver\<lparr>mutation_type := StrSel ''SWAP''\<rparr>) \<noteq> MutationSel FLIP_BIT"
    by simp
  from unsupported_selector_silent[of 4 NoneSel "StrSel ''SWAP''" zero_draws empty_store
      "example_evolver\<lparr>crossover_type := NoneSel\<rparr>" even_bits 0 1 example_store]
  have c: "(\<exists>ev0. fst (VectorEvolver_init 4 NoneSel (StrSel ''SWAP'') zero_draws empty_store) = Inr ev0 \<and>
          crossover_type ev0 = NoneSel \<and> mutation_type ev0 = StrSel ''SWAP'')"
    and d: "crossover (example_evolver\<lparr>crossover_type := NoneSel\<rparr>) even_bits 0 1 example_store =
     (Inr (next_ref example_store),
      example_store\<lparr>cells := (cells example_store)(next_ref example_store := cells example_store 0),
        next_ref := next_ref example_store + 1\<rparr>)"
    using a by blast+
  from unsupported_selector_silent[where ev = "example_evolver\<lparr>mutation_type := StrSel ''SWAP''\<rparr>"
      and mbits = even_bits and p = 0 and st = example_store]
  have e: "mutate (example_evolver\<lparr>mutation_type := StrSel ''SWAP''\<rparr>) even_bits 0 example_store =
     (Inr 0, example_store)"
    using b by blast
  from a b c d e show ?thesis by blast
qed

text \<open>
  Claim C6 as stated fails: with \<open>None\<close> for both selectors the constructor, \<open>crossover\<close>
  and \<open>mutate\<close> all return.
\<close>

theorem unsupported_selector_counterexample:
  "fst (VectorEvolver_init 4 NoneSel NoneSel zero_draws empty_store)
     = Inr (example_evolver\<lparr>crossover_type := NoneSel, mutation_type := NoneSel\<rparr>) \<and>
   fst (crossover (example_evolver\<lparr>crossover_type := NoneSel, mutation_type := NoneSel\<rparr>)
          even_bits 0 1 example_store) = Inr 2 \<and>
   fst (mutate (example_evolver\<lparr>crossover_type := NoneSel, mutation_type := NoneSel\<rparr>)
          even_bits 2 example_store) = Inr 2"
  by (simp add: VectorEvolver_init_eq example_evolver_def empty_store_def example_store_def
      crossover_def mutate_def alloc_def)

lemma bool_index_length:
  "msk \<noteq> [] \<Longrightarrow> length msk \<noteq> length a \<Longrightarrow> bool_index a msk = Inl IndexError"
  by (simp add: bool_index_def)

lemma bool_assign_length:
  "msk \<noteq> [] \<Longrightarrow> length msk \<noteq> length a \<Longrightarrow> bool_assign a msk vals = Inl IndexError"
  by (simp add: bool_assign_def Let_def)

lemma put_mask_empty [simp]: "put_mask a [] vals = a"
  by (cases a) simp_all

lemma crossover_copy:
  "crossover_type ev \<noteq> CrossoverSel UNIFORM \<or> vec_size ev = 0 \<Longrightarrow>
   crossover ev cbits p1 p2 st =
     (Inr (next_ref st),
      st\<lparr>cells := (cells st)(next_ref st := cells st p1), next_ref := next_ref st + 1\<rparr>)"
  by (auto simp: crossover_def alloc_def bool_index_def bool_assign_def Let_def)

lemma crossover_raises:
  assumes "crossover_type ev = CrossoverSel UNIFORM" and "0 < vec_size ev"
    and "length (cells st p1) \<noteq> length (cells st p2)"
    and "p2 < next_ref st"
  shows "fst (crossover ev cbits p1 p2 st) = Inl IndexError"
proof -
  let ?msk = "map cbits [0 ..< vec_size ev]"
  from assms(2) have ne: "?msk \<noteq> []" by simp
  show ?thesis
  proof (cases "length (cells st p2) = vec_size ev")
    case True
    with assms(3) have "length ?msk \<noteq> length (cells st p1)" by simp
    with ne have "\<And>vals. bool_assign (cells st p1) ?msk vals = Inl IndexError"
      by (rule bool_assign_length)
    moreover from True have "\<exists>vals. bool_index (cells st p2) ?msk = Inr vals"
      by (simp add: bool_index_def)
    ultimately show ?thesis using assms(1,4)
      by (auto simp: crossover_def alloc_def Let_def)
  next
    case False
    then have "length ?msk \<noteq> length (cells st p2)" by simp
    with ne have "bool_index (cells st p2) ?msk = Inl IndexError"
      by (rule bool_index_length)
    with assms(1,4) show ?thesis
      by (simp add: crossover_def alloc_def Let_def)
  qed
qed

text \<open>
  Claim C7, as amended.  \<open>crossover\<close> has no length check of its own.  With the UNIFORM
  selector and a positive vector size it raises IndexError for every pair of parents of
  differing lengths: the mask has \<open>_vec_size\<close> entries, so it cannot fit both.  With
  another selector, or with vector size 0, where the mask is empty, it returns a new copy
  of the first parent, whatever the lengths are.
\<close>

theorem crossover_length_mismatch:
  "(crossover_type ev = CrossoverSel UNIFORM \<and> 0 < vec_size ev \<and>
    length (cells st p1) \<noteq> length (cells st p2) \<and> p2 < next_ref st \<longrightarrow>
      fst (crossover ev cbits p1 p2 st) = Inl IndexError) \<and>
   (crossover_type ev \<noteq> CrossoverSel UNIFORM \<or> vec_size ev = 0 \<longrightarrow>
      crossover ev cbits p1 p2 st =
        (Inr (next_ref st),
         st\<lparr>cells := (cells st)(next_ref st := cells st p1), next_ref := next_ref st + 1\<rparr>))"
  using crossover_raises crossover_copy by blast

theorem crossover_length_mismatch_witness:
  "crossover_type example_evolver = CrossoverSel UNIFORM \<and>
   0 < vec_size example_evolver \<and>
   length (cells mixed_store 0) \<noteq> length (cells mixed_store 2) \<and>
   2 < next_ref mixed_store \<and>
   fst (crossover example_evolver even_bits 0 2 mixed_store) = Inl IndexError \<and>
   vec_size (example_evolver\<lparr>vec_size := 0\<rparr>) = 0 \<and>
   crossover (example_evolver\<lparr>vec_size := 0\<rparr>) even_bits 0 2 mixed_store =
     (Inr (next_ref mixed_store),
      mixed_store\<lparr>cells := (cells mixed_store)(next_ref mixed_store := cells mixed_store 0),
        next_ref := next_ref mixed_store + 1\<rparr>) \<and>
   crossover_type (example_evolver\<lparr>crossover_type := NoneSel\<rparr>) \<noteq> CrossoverSel UNIFORM \<and>
   crossover (example_evolver\<lparr>crossover_type := NoneSel\<rparr>) even_bits 0 2 mixed_store =
     (Inr (next_ref mixed_store),
      mixed_store\<lparr>cells := (cells mixed_store)(next_ref mixed_store := cells mixed_store 0),
        next_ref := next_ref mixed_store + 1\<rparr>)"
proof -
  have a: "crossover_type example_evolver = CrossoverSel UNIFORM \<and>
           0 < vec_size example_evolver \<and>
           length (cells mixed_store 0) \<noteq> length (cells mixed_store 2) \<and>
           2 < next_ref mixed_store"
    by (simp add: example_evolver_def mixed_store_def)
  have b: "vec_size (example_evolver\<lparr>vec_size := 0\<rparr>) = 0" by simp
  have c: "crossover_type (example_evolver\<lparr>crossover_type := NoneSel\<rparr>) \<noteq> CrossoverSel UNIFORM"
    by simp
  from crossover_length_mismatch[of example_evolver mixed_store 0 2 even_bits] a
  have ra: "fst (crossover example_evolver even_bits 0 2 mixed_store) = Inl IndexError"
    by blast
  from crossover_length_mismatch[of "example_evolver\<lparr>vec_size := 0\<rparr>" mixed_store 0 2 even_bits] b
  have rb: "crossover (example_evolver\<lparr>vec_size := 0\<rparr>) even_bits 0 2 mixed_store =
     (Inr (next_ref mixed_store),
      mixed_store\<lparr>cells := (cells mixed_store)(next_ref mixed_store := cells mixed_store 0),
        next_ref := next_ref mixed_store + 1\<rparr>)"
    by blast
  from crossover_length_mismatch[of "example_evolver\<lparr>crossover_type := NoneSel\<rparr>"
      mixed_store 0 2 even_bits] c
  have rc: "crossover (example_evolver\<lparr>crossover_type := NoneSel\<rparr>) even_bits 0 2 mixed_store =
     (Inr (next_ref mixed_store),
      mixed_store\<lparr>cells := (cells mixed_store)(next_ref mixed_store := cells mixed_store 0),
        next_ref := next_ref mixed_store + 1\<rparr>)"
    by blast
  from a b c ra rb rc show ?thesis by blast
qed

text \<open>
  Claim C7 as stated fails: with the UNIFORM selector and vector size 0, and with a
  selector other than UNIFORM, \<open>crossover\<close> returns a copy of the first parent although the
  second has another length.
\<close>

theorem crossover_length_mismatch_counterexample:
  "crossover_type (example_evolver\<lparr>vec_size := 0\<rparr>) = CrossoverSel UNIFORM \<and>
   length (cells mixed_store 0) \<noteq> length (cells mixed_store 2) \<and>
   fst (crossover (example_evolver\<lparr>vec_size := 0\<rparr>) even_bits 0 2 mixed_store) = Inr 3 \<and>
   fst (crossover (example_evolver\<lparr>crossover_type := StrSel ''ONE_POINT''\<rparr>)
          even_bits 0 2 mixed_store) = Inr 3"
  by (simp add: example_evolver_def mixed_store_def crossover_def alloc_def bool_index_def
      bool_assign_def)

section \<open>The codec\<close>


























lemma example_codec_init: "MatrixEvolver_init [[2, 2], [3]] = Some (Inr example_codec)"
  by (simp add: MatrixEvolver_init_def representable_def example_codec_def)


lemma replicate_3: "replicate 3 x = [x, x, x]"
  by (simp add: numeral_3_eq_3)

lemma float64_of_bit [simp]: "float64_of_int 0 = 0" "float64_of_int 1 = 1"
  by (simp_all add: float64_of_int_def)

lemmas codec_eval = replicate_3
  vec_to_matrices_def matrices_to_vec_def example_codec_def flat_codec_def np_zeros_def
  broadcast_into_def slice_def slice_assign_def reshape_def fill_def Let_def

lemma flat_roundtrip_example:
  "matrices_to_vec flat_codec
     [\<lparr>shape = [4], data = [1, 0, 0, 1]\<rparr>, \<lparr>shape = [3], data = [1, 1, 0]\<rparr>]
     = Inr [1, 0, 0, 1, 1, 1, 0] \<and>
   vec_to_matrices flat_codec [1, 0, 0, 1, 1, 1, 0]
     = Inr [\<lparr>shape = [4], data = [1, 0, 0, 1]\<rparr>, \<lparr>shape = [3], data = [1, 1, 0]\<rparr>]"
  by (simp add: codec_eval)

text \<open>
  Claim C3.  The code at the scenario of the claim, shapes (2, 2) and (3,):
  \<open>matrices_to_vec\<close> raises ValueError on the two matrices, since the matrix of shape
  (2, 2) is assigned unflattened to a slice of four elements.  The same holds for the
  matrices that \<open>vec_to_matrices\<close> decodes from the vector of the scenario.
\<close>

theorem roundtrip_scenario:
  "MatrixEvolver_init [[2, 2], [3]] = Some (Inr example_codec) \<and>
   matrices_to_vec example_codec
     [\<lparr>shape = [2, 2], data = [1, 0, 0, 1]\<rparr>, \<lparr>shape = [3], data = [1, 1, 0]\<rparr>]
     = Inl ValueError \<and>
   vec_to_matrices example_codec [1, 0, 0, 1, 1, 1, 0]
     = Inr [\<lparr>shape = [2, 2], data = [1, 0, 0, 1]\<rparr>, \<lparr>shape = [3], data = [1, 1, 0]\<rparr>]"
  by (simp add: example_codec_init) (simp add: codec_eval)




end
